theory Spec2Isabelle
  imports Main "HOL-Library.Product_Lexorder"
begin

section \<open>Data model\<close>

text \<open>
  The persisted entities of \<^verbatim>\<open>src/lib/bowling.ts\<close> and the derived ones of
  \<^verbatim>\<open>src/lib/useRealtimeRolls.ts\<close>. Numbers are the integer columns of the store and
  are modelled as \<^typ>\<open>int\<close>; identifiers are strings. The optional timestamps
  (\<^verbatim>\<open>created_at\<close>, \<^verbatim>\<open>updated_at\<close>) are read by none of the functions below and
  are left out. Field names are the source's, prefixed where two interfaces share a name
  (\<^verbatim>\<open>Roll.id\<close> is \<open>roll_id\<close>, \<^verbatim>\<open>Roll.pins\<close> is \<open>roll_pins\<close>,
  \<^verbatim>\<open>Player.id\<close> is \<open>p_id\<close>, the fields of \<^verbatim>\<open>SelectedCell\<close> carry \<open>sel_\<close>);
  a parameter or local variable that shares its name with a field is renamed
  (\<open>rollNo\<close>, \<open>pinsIn\<close>, \<open>runTotal\<close>).
\<close>

record Roll =
  roll_id :: string
  game_id :: string
  player_id :: string
  frame :: int
  roll :: int
  roll_pins :: int

record Player =
  p_id :: string
  p_game_id :: string
  display_name :: string

text \<open>The anonymous element type \<^verbatim>\<open>{ rollNumber: number; pins: number }\<close>.\<close>

record RollEntry =
  rollNumber :: int
  pins :: int

record FrameData =
  frameNumber :: int
  rolls :: "RollEntry list"
  frameTotal :: int
  runningTotal :: int

record PlayerWithFrames = Player +
  frames :: "FrameData list"
  total :: int

record SelectedCell =
  sel_playerId :: string
  sel_frameIndex :: int
  sel_rollNumber :: int

section \<open>Array access as the source has it\<close>

text \<open>
  \<^verbatim>\<open>xs[i]\<close> is \<^verbatim>\<open>undefined\<close> outside the array, \<^verbatim>\<open>xs.find(P)\<close> is the first
  element satisfying \<open>P\<close> or \<^verbatim>\<open>undefined\<close> (that is \<^const>\<open>List.find\<close>), and
  \<^verbatim>\<open>xs.findIndex(P)\<close> is the first index or \<open>-1\<close>, here \<open>None\<close>.
\<close>

definition at_index :: "'a list \<Rightarrow> int \<Rightarrow> 'a option" where
  "at_index xs i = (if 0 \<le> i \<and> i < int (length xs) then Some (xs ! nat i) else None)"

fun findIndex :: "('a \<Rightarrow> bool) \<Rightarrow> 'a list \<Rightarrow> nat option" where
  "findIndex P [] = None"
| "findIndex P (x # xs) = (if P x then Some 0 else map_option Suc (findIndex P xs))"

text \<open>\<^verbatim>\<open>rolls[k]?.pins || 0\<close>: the pins of the \<open>k\<close>-th entry, \<open>0\<close> when it is absent.\<close>

definition pinsAt :: "RollEntry list \<Rightarrow> nat \<Rightarrow> int" where
  "pinsAt rs k = (if k < length rs then pins (rs ! k) else 0)"

text \<open>
  \<^verbatim>\<open>[...frame.rolls].sort((a, b) => a.rollNumber - b.rollNumber)\<close>: the stable sort by
  roll number.
\<close>

definition sortedRolls :: "RollEntry list \<Rightarrow> RollEntry list" where
  "sortedRolls rs = sort_key rollNumber rs"

section \<open>Frame builder\<close>

subsection \<open>Bonus lookahead\<close>

fun getNextRoll_loop :: "FrameData list \<Rightarrow> int" where
  "getNextRoll_loop [] = 0"
| "getNextRoll_loop (fr # frs) =
     (if rolls fr \<noteq> [] then pinsAt (sortedRolls (rolls fr)) 0 else getNextRoll_loop frs)"

text \<open>The loop runs over the indices \<open>i\<close> with \<open>currentFrameIndex < i < min (length frames) 10\<close>.\<close>

definition getNextRoll :: "FrameData list \<Rightarrow> nat \<Rightarrow> int" where
  "getNextRoll frs currentFrameIndex = getNextRoll_loop (drop (currentFrameIndex + 1) (take 10 frs))"

text \<open>The inner \<^verbatim>\<open>for (const roll of sortedRolls)\<close> with its state \<open>(total, rollsFound)\<close>.\<close>

fun addRolls :: "RollEntry list \<Rightarrow> int \<times> nat \<Rightarrow> int \<times> nat" where
  "addRolls [] (t, n) = (t, n)"
| "addRolls (r # rs) (t, n) =
     (if n < 2
      then (if n + 1 \<ge> 2 then (t + pins r, n + 1) else addRolls rs (t + pins r, n + 1))
      else addRolls rs (t, n))"

fun getNextTwoRolls_loop :: "FrameData list \<Rightarrow> int \<times> nat \<Rightarrow> int \<times> nat" where
  "getNextTwoRolls_loop [] (t, n) = (t, n)"
| "getNextTwoRolls_loop (fr # frs) (t, n) =
     (if n < 2
      then getNextTwoRolls_loop frs
             (if rolls fr \<noteq> [] then addRolls (sortedRolls (rolls fr)) (t, n) else (t, n))
      else (t, n))"

definition getNextTwoRolls :: "FrameData list \<Rightarrow> nat \<Rightarrow> int" where
  "getNextTwoRolls frs currentFrameIndex =
     fst (getNextTwoRolls_loop (drop (currentFrameIndex + 1) (take 10 frs)) (0, 0))"

subsection \<open>Bucketing the rolls of one player\<close>

definition emptyFrames :: "FrameData list" where
  "emptyFrames =
     map (\<lambda>i. \<lparr>frameNumber = int i, rolls = [], frameTotal = 0, runningTotal = 0\<rparr>) [0..<10]"

text \<open>
  The body of the \<^verbatim>\<open>forEach\<close> over the sorted rolls: \<^verbatim>\<open>frames[roll.frame - 1]\<close> is
  \<^verbatim>\<open>undefined\<close> outside the array and the roll is then skipped.
\<close>

definition pushRoll :: "FrameData list \<Rightarrow> Roll \<Rightarrow> FrameData list" where
  "pushRoll frs r =
     (let frameIndex = frame r - 1 in
      case at_index frs frameIndex of
        None \<Rightarrow> frs
      | Some fr \<Rightarrow>
          frs[nat frameIndex :=
                fr\<lparr>rolls := rolls fr @ [\<lparr>rollNumber = roll r - 1, pins = roll_pins r\<rparr>]\<rparr>])"

text \<open>The comparator sorts by frame first, then by roll number; the sort is stable.\<close>

definition sortPlayerRolls :: "Roll list \<Rightarrow> Roll list" where
  "sortPlayerRolls rs = sort_key (\<lambda>r. (frame r, roll r)) rs"

definition groupRolls :: "Roll list \<Rightarrow> FrameData list" where
  "groupRolls playerRolls = foldl pushRoll emptyFrames (sortPlayerRolls playerRolls)"

subsection \<open>Frame totals and running totals\<close>

text \<open>
  The total the second \<^verbatim>\<open>forEach\<close> assigns to a non-empty frame, from its (sorted)
  rolls and the array as it stands.
\<close>

definition frameScore :: "FrameData list \<Rightarrow> nat \<Rightarrow> RollEntry list \<Rightarrow> int" where
  "frameScore frs frameIndex rs =
     (let roll1 = pinsAt rs 0; roll2 = pinsAt rs 1; roll3 = pinsAt rs 2 in
      if frameIndex = 9 then
        (if roll1 = 10 then roll1 + roll2 + roll3
         else if roll1 + roll2 = 10 then roll1 + roll2 + roll3
         else roll1 + roll2)
      else
        (if roll1 = 10 then 10 + getNextTwoRolls frs frameIndex
         else if roll1 + roll2 = 10 then 10 + getNextRoll frs frameIndex
         else roll1 + roll2))"

text \<open>
  One iteration of the second \<^verbatim>\<open>forEach\<close>: the state is the array, mutated in place,
  and the variable \<^verbatim>\<open>runningTotal\<close>.
\<close>

definition scoreFrame :: "FrameData list \<times> int \<Rightarrow> nat \<Rightarrow> FrameData list \<times> int" where
  "scoreFrame st frameIndex =
     (let frs = fst st; runTotal = snd st;
          fr = (frs ! frameIndex)\<lparr>rolls := sortedRolls (rolls (frs ! frameIndex))\<rparr>;
          frs1 = frs[frameIndex := fr]
      in if rolls fr = []
         then (frs1[frameIndex := fr\<lparr>frameTotal := 0, runningTotal := runTotal\<rparr>],
               runTotal)
         else (let ft = frameScore frs1 frameIndex (rolls fr) in
               (frs1[frameIndex := fr\<lparr>frameTotal := ft, runningTotal := runTotal + ft\<rparr>],
                runTotal + ft)))"

definition calcTotals :: "FrameData list \<Rightarrow> FrameData list \<times> int" where
  "calcTotals frs = foldl scoreFrame (frs, 0) [0..<length frs]"

text \<open>The callback of \<^verbatim>\<open>players.map\<close>, and \<^verbatim>\<open>processRollsIntoPlayers\<close> itself.\<close>

definition buildPlayer :: "Player \<Rightarrow> Roll list \<Rightarrow> PlayerWithFrames" where
  "buildPlayer player rs =
     (let playerRolls = filter (\<lambda>r. player_id r = p_id player) rs;
          res = calcTotals (groupRolls playerRolls)
      in Player.extend player (PlayerWithFrames.fields (fst res) (snd res)))"

definition processRollsIntoPlayers :: "Player list \<Rightarrow> Roll list \<Rightarrow> PlayerWithFrames list" where
  "processRollsIntoPlayers players rs = map (\<lambda>player. buildPlayer player rs) players"

section \<open>Roll reconciliation\<close>

text \<open>
  The change-feed callback of \<^verbatim>\<open>useRealtimeRolls\<close>: the event carries the new row
  (the old one for a delete) and the callback updates the local array \<^verbatim>\<open>rollsData\<close>.
\<close>

datatype RollEvent = INSERT Roll | UPDATE Roll | DELETE Roll

fun applyEvent :: "Roll list \<Rightarrow> RollEvent \<Rightarrow> Roll list" where
  "applyEvent rollsData (INSERT new) = rollsData @ [new]"
| "applyEvent rollsData (UPDATE updatedRoll) =
     (case findIndex (\<lambda>r. roll_id r = roll_id updatedRoll) rollsData of
        Some existingIndex \<Rightarrow> rollsData[existingIndex := updatedRoll]
      | None \<Rightarrow> rollsData @ [updatedRoll])"
| "applyEvent rollsData (DELETE deletedRoll) =
     filter (\<lambda>r. roll_id r \<noteq> roll_id deletedRoll) rollsData"

text \<open>\<^verbatim>\<open>updatePlayersFromRolls\<close> after the merge: the scoreboard handed to \<^verbatim>\<open>setPlayers\<close>.\<close>

definition onRollEvent :: "Player list \<Rightarrow> Roll list \<Rightarrow> RollEvent \<Rightarrow> Roll list \<times> PlayerWithFrames list" where
  "onRollEvent playersData rollsData ev =
     (let rollsData' = applyEvent rollsData ev
      in (rollsData', processRollsIntoPlayers playersData rollsData'))"

section \<open>Legal-pins calculator\<close>

definition getMaxPinsForSelection :: "PlayerWithFrames list \<Rightarrow> SelectedCell option \<Rightarrow> int" where
  "getMaxPinsForSelection players selectedCell =
     (case selectedCell of
        None \<Rightarrow> 10
      | Some cell \<Rightarrow>
        (case find (\<lambda>p. p_id p = sel_playerId cell) players of
           None \<Rightarrow> 10
         | Some player \<Rightarrow>
           (let frameIndex = sel_frameIndex cell; rollNo = sel_rollNumber cell;
                fr = at_index (frames player) frameIndex
            in if rollNo = 0 then 10
               else if frameIndex < 9 \<and> rollNo = 1 then
                 (case fr of
                    None \<Rightarrow> 10
                  | Some f \<Rightarrow>
                      if rolls f = [] then 10
                      else (case find (\<lambda>r. RollEntry.rollNumber r = 0) (rolls f) of
                              Some roll1 \<Rightarrow> 10 - pins roll1
                            | None \<Rightarrow> 10))
               else if frameIndex = 9 then
                 (let rs = (case fr of None \<Rightarrow> [] | Some f \<Rightarrow> rolls f);
                      roll1 = find (\<lambda>r. RollEntry.rollNumber r = 0) rs;
                      roll2 = find (\<lambda>r. RollEntry.rollNumber r = 1) rs
                  in if rollNo = 1 then
                       (case roll1 of
                          None \<Rightarrow> 10
                        | Some r1 \<Rightarrow> if pins r1 = 10 then 10 else 10 - pins r1)
                     else if rollNo = 2 then
                       (case roll2 of
                          None \<Rightarrow> 10
                        | Some r2 \<Rightarrow>
                            if pins r2 = 10 then 10
                            else if (case roll1 of None \<Rightarrow> False
                                     | Some r1 \<Rightarrow> pins r1 + pins r2 = 10 \<and> pins r1 \<noteq> 10)
                            then 10
                            else if (case roll1 of None \<Rightarrow> False
                                     | Some r1 \<Rightarrow> pins r1 = 10 \<and> pins r2 < 10)
                            then 10 - pins r2
                            else 10)
                     else 10)
               else 10)))"

section \<open>Turn sequencer\<close>

text \<open>
  \<^verbatim>\<open>const nextPlayer = players[i]; if (nextPlayer) setSelectedCell({...}) else
  setSelectedCell(null)\<close>: the value the selection is set to.
\<close>

definition selectCell :: "PlayerWithFrames list \<Rightarrow> nat \<Rightarrow> int \<Rightarrow> int \<Rightarrow> SelectedCell option" where
  "selectCell players i f r =
     (case at_index players (int i) of
        Some nextPlayer \<Rightarrow>
          Some \<lparr>sel_playerId = p_id nextPlayer, sel_frameIndex = f, sel_rollNumber = r\<rparr>
      | None \<Rightarrow> None)"

text \<open>
  The first roll of the player's 10th frame as \<^verbatim>\<open>advanceTurn\<close> reads it from the derived
  data: \<^verbatim>\<open>frame?.rolls.find(r => r.rollNumber === 0)?.pins || 0\<close>.
\<close>

definition tenthFrameRoll0 :: "PlayerWithFrames \<Rightarrow> int" where
  "tenthFrameRoll0 player =
     (case at_index (frames player) 9 of
        None \<Rightarrow> 0
      | Some fr \<Rightarrow>
          (case find (\<lambda>r. RollEntry.rollNumber r = 0) (rolls fr) of
             None \<Rightarrow> 0
           | Some r \<Rightarrow> pins r))"

text \<open>
  \<^verbatim>\<open>advanceTurn\<close>. The state it acts on is the selection; the result is the selection
  after the call (unchanged when the player is not found and the function returns early).
\<close>

definition advanceTurn ::
  "PlayerWithFrames list \<Rightarrow> SelectedCell option \<Rightarrow> string \<Rightarrow> int \<Rightarrow> int \<Rightarrow> int \<Rightarrow> SelectedCell option" where
  "advanceTurn players selectedCell playerId frameIndex rollNo pinsIn =
     (case findIndex (\<lambda>p. p_id p = playerId) players of
        None \<Rightarrow> selectedCell
      | Some pIndex \<Rightarrow>
          if frameIndex < 9 then
            (let isStrike = (rollNo = 0 \<and> pinsIn = 10) in
             if isStrike \<or> rollNo + 1 > 1 then
               (let nextPlayerIndex = (pIndex + 1) mod length players in
                if nextPlayerIndex = 0 \<and> pIndex = length players - 1
                then selectCell players nextPlayerIndex (frameIndex + 1) 0
                else selectCell players nextPlayerIndex frameIndex 0)
             else selectCell players pIndex frameIndex (rollNo + 1))
          else
            (let turnEnded =
                   (if rollNo = 0 then False
                    else if rollNo = 1 then
                      (let roll0 = tenthFrameRoll0 (players ! pIndex) in
                       \<not> (roll0 = 10 \<or> roll0 + pinsIn = 10))
                    else if rollNo = 2 then True
                    else False);
                 nextRollNumber =
                   (if rollNo = 0 then 1
                    else if rollNo = 1 \<and> \<not> turnEnded then 2
                    else rollNo + 1)
             in if turnEnded then
                  (let nextPlayerIndex = (pIndex + 1) mod length players in
                   if nextPlayerIndex = 0 \<and> pIndex = length players - 1 then None
                   else selectCell players nextPlayerIndex frameIndex 0)
                else selectCell players pIndex frameIndex nextRollNumber))"

text \<open>
  \<^verbatim>\<open>handleRollInput\<close>: the roll is committed at the active selection and the turn is
  advanced at once, before the write; a failed write is reported and nothing is rolled back,
  so the selection the handler sets is that of \<^const>\<open>advanceTurn\<close>.
\<close>

definition handleRollInput :: "PlayerWithFrames list \<Rightarrow> SelectedCell option \<Rightarrow> int \<Rightarrow> SelectedCell option" where
  "handleRollInput players selectedCell pinsIn =
     (case selectedCell of
        None \<Rightarrow> None
      | Some cell \<Rightarrow>
          advanceTurn players selectedCell
            (sel_playerId cell) (sel_frameIndex cell) (sel_rollNumber cell) pinsIn)"

section \<open>Auto-select effect\<close>

text \<open>
  The effect \<^verbatim>\<open>useEffect(..., [players, selectedCell])\<close> of the page: whenever the
  player list is not empty and no cell is selected, it scans the players in order and the
  frames 0 to 9 of each, and selects the first open roll slot of the first incomplete frame
  it meets; when every frame is complete it selects nothing.

  \<^verbatim>\<open>frame?.rolls || []\<close> of frame \<open>f\<close> of a player:
\<close>

definition frameRolls :: "PlayerWithFrames \<Rightarrow> nat \<Rightarrow> RollEntry list" where
  "frameRolls player f =
     (case at_index (frames player) (int f) of None \<Rightarrow> [] | Some fr \<Rightarrow> rolls fr)"

text \<open>
  The body of the inner loop for frame \<open>f\<close>: \<open>None\<close> where the source says
  \<^verbatim>\<open>continue\<close> (the frame is complete), the roll index it selects otherwise.
\<close>

definition nextOpenRoll :: "nat \<Rightarrow> RollEntry list \<Rightarrow> int option" where
  "nextOpenRoll f rs =
     (if f < 9 then
        (if list_ex (\<lambda>r. RollEntry.rollNumber r = 0 \<and> pins r = 10) rs then None
         else if length rs \<ge> 2 then None
         else Some (int (length rs)))
      else
        (if length rs \<ge> 3 then None
         else if length rs = 2 \<and>
                 (let r0 = (case find (\<lambda>r. RollEntry.rollNumber r = 0) rs of
                              None \<Rightarrow> 0 | Some r \<Rightarrow> pins r);
                      r1 = (case find (\<lambda>r. RollEntry.rollNumber r = 1) rs of
                              None \<Rightarrow> 0 | Some r \<Rightarrow> pins r)
                  in r0 + r1 < 10 \<and> r0 \<noteq> 10)
         then None
         else Some (int (length rs))))"

fun scanFrames :: "PlayerWithFrames \<Rightarrow> nat list \<Rightarrow> SelectedCell option" where
  "scanFrames player [] = None"
| "scanFrames player (f # fs) =
     (case nextOpenRoll f (frameRolls player f) of
        Some nextRoll \<Rightarrow>
          Some \<lparr>sel_playerId = p_id player, sel_frameIndex = int f, sel_rollNumber = nextRoll\<rparr>
      | None \<Rightarrow> scanFrames player fs)"

fun scanPlayers :: "PlayerWithFrames list \<Rightarrow> SelectedCell option" where
  "scanPlayers [] = None"
| "scanPlayers (player # ps) =
     (case scanFrames player [0..<10] of
        Some cell \<Rightarrow> Some cell
      | None \<Rightarrow> scanPlayers ps)"

text \<open>The selection after the effect has run on the list \<open>players\<close> and the selection given.\<close>

definition autoSelect :: "PlayerWithFrames list \<Rightarrow> SelectedCell option \<Rightarrow> SelectedCell option" where
  "autoSelect players selectedCell =
     (if players \<noteq> [] \<and> selectedCell = None then scanPlayers players else selectedCell)"

section \<open>The page: a handler followed by the effect\<close>

text \<open>
  A handler that changes the selection causes a render, after which the effect runs on the
  player list the page holds at that moment. For a committed roll that list does not hold
  the roll yet: the turn is advanced before the write is sent. \<open>afterRollInput\<close> is the
  selection the page rests at after one committed roll; \<open>commitRolls\<close> is a sequence of
  committed rolls, each at the selection the previous one left, on an unchanged list.
  Running the effect where the selection did not change does nothing to a selection the
  effect has already seen.
\<close>

definition afterRollInput :: "PlayerWithFrames list \<Rightarrow> SelectedCell option \<Rightarrow> int \<Rightarrow> SelectedCell option" where
  "afterRollInput players selectedCell pinsIn =
     autoSelect players (handleRollInput players selectedCell pinsIn)"

definition commitRolls :: "PlayerWithFrames list \<Rightarrow> SelectedCell option \<Rightarrow> int list \<Rightarrow> SelectedCell option" where
  "commitRolls players selectedCell ps = foldl (afterRollInput players) selectedCell ps"

section \<open>Reset actions\<close>








section \<open>Vocabulary of the properties\<close>

text \<open>
  The pins recorded in the frames after frame \<open>f\<close>, frame by frame and in the order the
  frames hold them: what a scan forward from \<open>f\<close> meets.
\<close>

definition rollsAfter :: "FrameData list \<Rightarrow> nat \<Rightarrow> int list" where
  "rollsAfter fs f = concat (map (\<lambda>fr. map pins (rolls fr)) (drop (Suc f) fs))"

text \<open>A roll record whose frame number is one of the store's \<open>1\<close> to \<open>10\<close>.\<close>

definition validFrame :: "Roll \<Rightarrow> bool" where
  "validFrame r = (1 \<le> frame r \<and> frame r \<le> 10)"

text \<open>Every roll of the derived data knocks down between \<open>0\<close> and \<open>10\<close> pins.\<close>

definition pinsInRange :: "PlayerWithFrames list \<Rightarrow> bool" where
  "pinsInRange players =
     (\<forall>player \<in> set players. \<forall>fr \<in> set (frames player). \<forall>r \<in> set (rolls fr).
        0 \<le> pins r \<and> pins r \<le> 10)"

text \<open>
  A selection that is none, or names a frame index of at most \<open>9\<close> and a roll index of at
  most \<open>2\<close>: no frame after the 10th and no 4th roll.
\<close>

definition withinGame :: "SelectedCell option \<Rightarrow> bool" where
  "withinGame sel =
     (case sel of None \<Rightarrow> True | Some c \<Rightarrow> sel_frameIndex c \<le> 9 \<and> sel_rollNumber c \<le> 2)"


subsection \<open>Example data\<close>

definition alice :: Player where
  "alice = \<lparr>p_id = ''p1'', p_game_id = ''g'', display_name = ''Alice''\<rparr>"

definition bob :: Player where
  "bob = \<lparr>p_id = ''p2'', p_game_id = ''g'', display_name = ''Bob''\<rparr>"

text \<open>The row the store holds for roll \<open>r\<close> of frame \<open>f\<close> (both counted from 1) of a player.\<close>

definition rollOf :: "string \<Rightarrow> Player \<Rightarrow> int \<Rightarrow> int \<Rightarrow> int \<Rightarrow> Roll" where
  "rollOf rid player f r p =
     \<lparr>roll_id = rid, game_id = p_game_id player, player_id = p_id player,
      frame = f, roll = r, roll_pins = p\<rparr>"

definition strikeThenOpen :: "Roll list" where
  "strikeThenOpen = [rollOf ''r1'' alice 1 1 10, rollOf ''r2'' alice 2 1 7, rollOf ''r3'' alice 2 2 2]"

definition tenthTriple :: "Roll list" where
  "tenthTriple = [rollOf ''r1'' alice 10 1 10, rollOf ''r2'' alice 10 2 10, rollOf ''r3'' alice 10 3 10]"

definition tenthOpen :: "Roll list" where
  "tenthOpen = [rollOf ''r1'' alice 10 1 4, rollOf ''r2'' alice 10 2 3]"

definition tenthOpenExtra :: "Roll list" where
  "tenthOpenExtra = [rollOf ''r1'' alice 10 1 4, rollOf ''r2'' alice 10 2 3, rollOf ''r3'' alice 10 3 5]"

definition withStrayRolls :: "Roll list" where
  "withStrayRolls = [rollOf ''r0'' alice 0 1 10, rollOf ''r1'' alice 1 1 3, rollOf ''r9'' alice 11 1 10]"

definition boardEmpty :: "PlayerWithFrames list" where
  "boardEmpty = processRollsIntoPlayers [alice] []"

definition boardAfterSeven :: "PlayerWithFrames list" where
  "boardAfterSeven = processRollsIntoPlayers [alice] [rollOf ''r1'' alice 1 1 7]"

definition boardTenthStrike :: "PlayerWithFrames list" where
  "boardTenthStrike = processRollsIntoPlayers [alice] [rollOf ''r1'' alice 10 1 10]"

definition boardTenthStrikeFive :: "PlayerWithFrames list" where
  "boardTenthStrikeFive =
     processRollsIntoPlayers [alice] [rollOf ''r1'' alice 10 1 10, rollOf ''r2'' alice 10 2 5]"

definition boardTwoPlayers :: "PlayerWithFrames list" where
  "boardTwoPlayers = processRollsIntoPlayers [alice, bob] []"

text \<open>
  A game of one player in which every ball but the last is visible: strikes in the frames
  1 to 9 of the store and two strikes in frame 10.
\<close>

definition fullGameButLastBall :: "Roll list" where
  "fullGameButLastBall =
     [rollOf ''r1'' alice 1 1 10, rollOf ''r2'' alice 2 1 10, rollOf ''r3'' alice 3 1 10,
      rollOf ''r4'' alice 4 1 10, rollOf ''r5'' alice 5 1 10, rollOf ''r6'' alice 6 1 10,
      rollOf ''r7'' alice 7 1 10, rollOf ''r8'' alice 8 1 10, rollOf ''r9'' alice 9 1 10,
      rollOf ''r10'' alice 10 1 10, rollOf ''r11'' alice 10 2 10]"

definition boardBeforeLastBall :: "PlayerWithFrames list" where
  "boardBeforeLastBall = processRollsIntoPlayers [alice] fullGameButLastBall"

definition boardFullGame :: "PlayerWithFrames list" where
  "boardFullGame =
     processRollsIntoPlayers [alice] (fullGameButLastBall @ [rollOf ''r12'' alice 10 3 10])"

section \<open>Helper lemmas\<close>

subsection \<open>Array access\<close>

lemma find_in: "find P xs = Some x \<Longrightarrow> x \<in> set xs"
  by (induction xs) (auto split: if_splits)

lemma at_index_in: "at_index xs i = Some x \<Longrightarrow> x \<in> set xs"
  by (auto simp: at_index_def split: if_splits)

lemma findIndex_Some_less: "findIndex P xs = Some i \<Longrightarrow> i < length xs"
  by (induction xs arbitrary: i) (auto split: if_splits)

lemma findIndex_nth_distinct:
  "distinct (map f xs) \<Longrightarrow> k < length xs \<Longrightarrow> findIndex (\<lambda>x. f x = f (xs ! k)) xs = Some k"
proof (induction xs arbitrary: k)
  case Nil
  then show ?case by simp
next
  case (Cons x xs)
  show ?case
  proof (cases k)
    case 0
    then show ?thesis by simp
  next
    case (Suc j)
    with Cons.prems have "j < length xs" and "f x \<noteq> f (xs ! j)" by auto
    with Cons Suc show ?thesis by simp
  qed
qed

lemma wrap_last: "i < n \<Longrightarrow> i = n - 1 \<Longrightarrow> (i + 1) mod n = (0::nat)"
  by (cases n) auto

lemma findIndex_map: "findIndex (\<lambda>x. f x = a) xs = findIndex (\<lambda>y. y = a) (map f xs)"
  by (induction xs) auto

subsection \<open>Bonus lookahead\<close>

lemma addRolls_eq:
  "n \<le> 2 \<Longrightarrow>
   addRolls rs (t, n) = (t + sum_list (take (2 - n) (map pins rs)), min 2 (n + length rs))"
proof (induction rs arbitrary: t n)
  case Nil
  then show ?case by simp
next
  case (Cons r rs)
  consider "n = 0" | "n = 1" | "n = 2" using Cons.prems by linarith
  then show ?case
  proof cases
    case 1
    then show ?thesis using Cons.IH[of 1 "t + pins r"] by (simp add: numeral_2_eq_2)
  next
    case 2
    then show ?thesis by simp
  next
    case 3
    then show ?thesis using Cons.IH[of 2 t] by simp
  qed
qed

lemma getNextTwoRolls_loop_eq:
  "n \<le> 2 \<Longrightarrow>
   getNextTwoRolls_loop frs (t, n) =
     (t + sum_list (take (2 - n) (concat (map (\<lambda>fr. map pins (sortedRolls (rolls fr))) frs))),
      min 2 (n + length (concat (map (\<lambda>fr. map pins (sortedRolls (rolls fr))) frs))))"
proof (induction frs arbitrary: t n)
  case Nil
  then show ?case by simp
next
  case (Cons fr frs)
  let ?A = "map pins (sortedRolls (rolls fr))"
  let ?C = "concat (map (\<lambda>fr. map pins (sortedRolls (rolls fr))) frs)"
  show ?case
  proof (cases "n < 2")
    case False
    with Cons.prems have "n = 2" by simp
    then show ?thesis by simp
  next
    case True
    have st: "(if rolls fr \<noteq> [] then addRolls (sortedRolls (rolls fr)) (t, n) else (t, n))
                = (t + sum_list (take (2 - n) ?A), min 2 (n + length ?A))"
      using Cons.prems by (simp add: addRolls_eq sortedRolls_def)
    have "getNextTwoRolls_loop (fr # frs) (t, n)
            = getNextTwoRolls_loop frs (t + sum_list (take (2 - n) ?A), min 2 (n + length ?A))"
      using True st by simp
    also have "\<dots> = (t + sum_list (take (2 - n) ?A)
                        + sum_list (take (2 - min 2 (n + length ?A)) ?C),
                      min 2 (min 2 (n + length ?A) + length ?C))"
      by (rule Cons.IH) simp
    also have "\<dots> = (t + sum_list (take (2 - n) (?A @ ?C)), min 2 (n + length (?A @ ?C)))"
      by (auto simp: min_def)
    finally show ?thesis by simp
  qed
qed

lemma getNextTwoRolls_eq:
  "getNextTwoRolls frs i =
     sum_list (take 2 (concat (map (\<lambda>fr. map pins (sortedRolls (rolls fr)))
                                   (drop (i + 1) (take 10 frs)))))"
  by (simp add: getNextTwoRolls_def getNextTwoRolls_loop_eq)

subsection \<open>Bucketing\<close>

lemma length_pushRoll [simp]: "length (pushRoll frs r) = length frs"
  by (simp add: pushRoll_def Let_def split: option.splits)

lemma length_foldl_pushRoll [simp]: "length (foldl pushRoll frs rs) = length frs"
  by (induction rs arbitrary: frs) simp_all

lemma frameNumber_pushRoll [simp]: "map frameNumber (pushRoll frs r) = map frameNumber frs"
  by (auto simp: pushRoll_def Let_def at_index_def map_update list_update_same_conv split: option.splits if_splits)

lemma frameNumber_foldl_pushRoll [simp]:
  "map frameNumber (foldl pushRoll frs rs) = map frameNumber frs"
  by (induction rs arbitrary: frs) simp_all

lemma pushRoll_invalid: "length frs = 10 \<Longrightarrow> \<not> validFrame r \<Longrightarrow> pushRoll frs r = frs"
  by (auto simp: pushRoll_def validFrame_def at_index_def Let_def)

lemma foldl_pushRoll_filter:
  "length frs = 10 \<Longrightarrow> foldl pushRoll frs (filter validFrame rs) = foldl pushRoll frs rs"
  by (induction rs arbitrary: frs) (simp_all add: pushRoll_invalid)

lemma length_emptyFrames [simp]: "length emptyFrames = 10"
  by (simp add: emptyFrames_def)

lemma groupRolls_filter: "groupRolls (filter validFrame rs) = groupRolls rs"
  by (simp add: groupRolls_def sortPlayerRolls_def filter_sort[symmetric] foldl_pushRoll_filter)

lemma length_groupRolls [simp]: "length (groupRolls rs) = 10"
  by (simp add: groupRolls_def)

lemma frameNumber_groupRolls: "map frameNumber (groupRolls rs) = map int [0..<10]"
  by (simp add: groupRolls_def emptyFrames_def comp_def)

subsection \<open>The totals pass\<close>

lemma length_scoreFrame [simp]: "length (fst (scoreFrame st i)) = length (fst st)"
  by (simp add: scoreFrame_def Let_def)

lemma length_foldl_scoreFrame [simp]: "length (fst (foldl scoreFrame st is)) = length (fst st)"
  by (induction "is" arbitrary: st) simp_all

lemma scoreFrame_other: "j \<noteq> i \<Longrightarrow> fst (scoreFrame st i) ! j = fst st ! j"
  by (simp add: scoreFrame_def Let_def)

lemma foldl_scoreFrame_other: "j \<notin> set is \<Longrightarrow> fst (foldl scoreFrame st is) ! j = fst st ! j"
  by (induction "is" arbitrary: st) (simp_all add: scoreFrame_other)

lemma frameNumber_scoreFrame:
  "i < length (fst st) \<Longrightarrow> map frameNumber (fst (scoreFrame st i)) = map frameNumber (fst st)"
  by (simp add: scoreFrame_def Let_def map_update list_update_same_conv)

lemma frameNumber_foldl_scoreFrame:
  "\<forall>i \<in> set is. i < length (fst st) \<Longrightarrow>
   map frameNumber (fst (foldl scoreFrame st is)) = map frameNumber (fst st)"
  by (induction "is" arbitrary: st) (simp_all add: frameNumber_scoreFrame)

lemma frameNumber_calcTotals: "map frameNumber (fst (calcTotals frs)) = map frameNumber frs"
  by (simp add: calcTotals_def frameNumber_foldl_scoreFrame)

lemma length_calcTotals [simp]: "length (fst (calcTotals frs)) = length frs"
  by (simp add: calcTotals_def)

lemma frameScore_cong:
  assumes "drop (Suc i) (take 10 frs') = drop (Suc i) (take 10 frs)"
  shows "frameScore frs' i rs = frameScore frs i rs"
proof -
  have "getNextTwoRolls frs' i = getNextTwoRolls frs i"
    and "getNextRoll frs' i = getNextRoll frs i"
    using assms by (simp_all add: getNextTwoRolls_def getNextRoll_def)
  then show ?thesis by (simp add: frameScore_def Let_def)
qed

lemma drop_take_agree:
  assumes "length frs' = length frs" and "\<And>j. i < j \<Longrightarrow> frs' ! j = frs ! j"
  shows "drop (Suc i) (take 10 frs') = drop (Suc i) (take 10 frs)"
proof (rule nth_equalityI)
  show "length (drop (Suc i) (take 10 frs')) = length (drop (Suc i) (take 10 frs))"
    using assms(1) by simp
next
  fix k
  assume "k < length (drop (Suc i) (take 10 frs'))"
  then have "Suc i + k < 10" and "Suc i + k < length frs'" by auto
  with assms(1) show "drop (Suc i) (take 10 frs') ! k = drop (Suc i) (take 10 frs) ! k"
    by (simp add: assms(2))
qed

lemma sortedRolls_Nil [simp]: "(sortedRolls rs = []) = (rs = [])"
  using length_sort[of rollNumber rs] by (auto simp: sortedRolls_def simp del: length_sort)

lemma scoreFrame_self:
  assumes "i < length (fst st)"
  shows "rolls (fst (scoreFrame st i) ! i) = sortedRolls (rolls (fst st ! i))"
    and "frameTotal (fst (scoreFrame st i) ! i) =
           (if rolls (fst st ! i) = [] then 0
            else frameScore (fst st) i (sortedRolls (rolls (fst st ! i))))"
proof -
  let ?fr = "(fst st ! i)\<lparr>rolls := sortedRolls (rolls (fst st ! i))\<rparr>"
  have e: "(sortedRolls (rolls (fst st ! i)) = []) = (rolls (fst st ! i) = [])"
    by simp
  have c: "frameScore ((fst st)[i := ?fr]) i rs = frameScore (fst st) i rs" for rs
    by (rule frameScore_cong, rule drop_take_agree) simp_all
  show "rolls (fst (scoreFrame st i) ! i) = sortedRolls (rolls (fst st ! i))"
    using assms by (simp add: scoreFrame_def Let_def)
  show "frameTotal (fst (scoreFrame st i) ! i) =
           (if rolls (fst st ! i) = [] then 0
            else frameScore (fst st) i (sortedRolls (rolls (fst st ! i))))"
    using assms by (simp add: scoreFrame_def Let_def e c)
qed

lemma calcTotals_split:
  assumes "i < length frs"
  shows "calcTotals frs =
     foldl scoreFrame (scoreFrame (foldl scoreFrame (frs, 0) [0..<i]) i) [Suc i..<length frs]"
proof -
  from assms have "[0..<length frs] = [0..<i] @ [i..<length frs]"
    by (metis less_imp_le_nat upt_add_eq_append le_add_diff_inverse zero_le)
  with assms have "[0..<length frs] = [0..<i] @ i # [Suc i..<length frs]"
    by (simp add: upt_conv_Cons)
  then show ?thesis by (simp add: calcTotals_def)
qed

lemma calcTotals_nth:
  assumes "i < length frs"
  shows "rolls (fst (calcTotals frs) ! i) = sortedRolls (rolls (frs ! i))"
    and "frameTotal (fst (calcTotals frs) ! i) =
           (if rolls (frs ! i) = [] then 0 else frameScore frs i (sortedRolls (rolls (frs ! i))))"
proof -
  let ?st = "foldl scoreFrame (frs, 0) [0..<i]"
  have len: "length (fst ?st) = length frs" by simp
  have same: "fst ?st ! j = frs ! j" if "i \<le> j" for j
    using that by (simp add: foldl_scoreFrame_other)
  have res: "fst (calcTotals frs) ! i = fst (scoreFrame ?st i) ! i"
    by (simp add: calcTotals_split[OF assms] foldl_scoreFrame_other)
  have c: "frameScore (fst ?st) i rs = frameScore frs i rs" for rs
    by (rule frameScore_cong, rule drop_take_agree) (simp_all add: same)
  from assms len have i: "i < length (fst ?st)" by simp
  show "rolls (fst (calcTotals frs) ! i) = sortedRolls (rolls (frs ! i))"
    by (simp add: res scoreFrame_self(1)[OF i] same)
  show "frameTotal (fst (calcTotals frs) ! i) =
           (if rolls (frs ! i) = [] then 0 else frameScore frs i (sortedRolls (rolls (frs ! i))))"
    by (simp add: res scoreFrame_self(2)[OF i] same c)
qed

lemma rolls_calcTotals:
  "map rolls (fst (calcTotals frs)) = map (\<lambda>fr. sortedRolls (rolls fr)) frs"
  by (intro nth_equalityI) (simp_all add: calcTotals_nth)

lemma frames_buildPlayer:
  "frames (buildPlayer player rs) =
     fst (calcTotals (groupRolls (filter (\<lambda>r. player_id r = p_id player) rs)))"
  by (simp add: buildPlayer_def Let_def Player.defs PlayerWithFrames.defs)

lemma rollsAfter_calcTotals:
  "rollsAfter (fst (calcTotals frs)) f =
     concat (map (\<lambda>fr. map pins (sortedRolls (rolls fr))) (drop (Suc f) frs))"
proof -
  have "map (\<lambda>fr. map pins (rolls fr)) (drop (Suc f) (fst (calcTotals frs)))
          = map (map pins) (drop (Suc f) (map rolls (fst (calcTotals frs))))"
    by (simp add: drop_map)
  also have "\<dots> = map (\<lambda>fr. map pins (sortedRolls (rolls fr))) (drop (Suc f) frs)"
    by (simp add: rolls_calcTotals drop_map)
  finally show ?thesis by (simp add: rollsAfter_def)
qed

lemma strike_total:
  assumes "f < 9" and "rolls (frames (buildPlayer player rs) ! f) \<noteq> []"
    and "pins (rolls (frames (buildPlayer player rs) ! f) ! 0) = 10"
  shows "frameTotal (frames (buildPlayer player rs) ! f) =
           10 + sum_list (take 2 (rollsAfter (frames (buildPlayer player rs)) f))"
proof -
  let ?G = "groupRolls (filter (\<lambda>r. player_id r = p_id player) rs)"
  from assms(1) have f: "f < length ?G" by simp
  have r: "rolls (frames (buildPlayer player rs) ! f) = sortedRolls (rolls (?G ! f))"
    by (simp add: frames_buildPlayer calcTotals_nth(1)[OF f])
  with assms(2) have ne: "rolls (?G ! f) \<noteq> []" by simp
  from assms(2,3) r have p: "pinsAt (sortedRolls (rolls (?G ! f))) 0 = 10"
    by (simp add: pinsAt_def)
  have "frameTotal (frames (buildPlayer player rs) ! f) = 10 + getNextTwoRolls ?G f"
    using assms(1) ne p by (simp add: frames_buildPlayer calcTotals_nth(2)[OF f] frameScore_def)
  then show ?thesis
    by (simp add: frames_buildPlayer rollsAfter_calcTotals getNextTwoRolls_eq)
qed

lemma tenth_total:
  "frameTotal (frames (buildPlayer player rs) ! 9) =
     (let r = rolls (frames (buildPlayer player rs) ! 9);
          roll1 = pinsAt r 0; roll2 = pinsAt r 1; roll3 = pinsAt r 2
      in if roll1 = 10 \<or> roll1 + roll2 = 10 then roll1 + roll2 + roll3 else roll1 + roll2)"
proof -
  let ?G = "groupRolls (filter (\<lambda>r. player_id r = p_id player) rs)"
  let ?R = "sortedRolls (rolls (?G ! 9))"
  have f: "9 < length ?G" by simp
  have r: "rolls (frames (buildPlayer player rs) ! 9) = ?R"
    by (simp add: frames_buildPlayer calcTotals_nth(1)[OF f])
  have t: "frameTotal (frames (buildPlayer player rs) ! 9) =
             (if rolls (?G ! 9) = [] then 0 else frameScore ?G 9 ?R)"
    by (simp add: frames_buildPlayer calcTotals_nth(2)[OF f])
  show ?thesis
  proof (cases "rolls (?G ! 9) = []")
    case True
    then have "?R = []" by simp
    with True show ?thesis unfolding r t by (simp add: pinsAt_def sortedRolls_def)
  next
    case False
    then show ?thesis unfolding r t by (simp add: frameScore_def Let_def)
  qed
qed

lemma sum_pinsAt:
  "length r \<le> 3 \<Longrightarrow> sum_list (map pins r) = pinsAt r 0 + pinsAt r 1 + pinsAt r 2"
proof -
  assume l: "length r \<le> 3"
  show ?thesis
  proof (cases r)
    case Nil
    then show ?thesis by (simp add: pinsAt_def)
  next
    case r1: (Cons a r1)
    show ?thesis
    proof (cases r1)
      case Nil
      with r1 show ?thesis by (simp add: pinsAt_def)
    next
      case r2: (Cons b r2)
      show ?thesis
      proof (cases r2)
        case Nil
        with r1 r2 show ?thesis by (simp add: pinsAt_def)
      next
        case (Cons c r3)
        with r1 r2 l have "r3 = []" by simp
        with r1 r2 Cons show ?thesis by (simp add: pinsAt_def)
      qed
    qed
  qed
qed

subsection \<open>Legal pins\<close>

lemma range_aux:
  assumes "pinsInRange players"
  shows "0 \<le> getMaxPinsForSelection players sel \<and> getMaxPinsForSelection players sel \<le> 10"
proof (cases sel)
  case None
  then show ?thesis by (simp add: getMaxPinsForSelection_def)
next
  case (Some cell)
  show ?thesis
  proof (cases "find (\<lambda>p. p_id p = sel_playerId cell) players")
    case None
    with Some show ?thesis by (simp add: getMaxPinsForSelection_def)
  next
    case (Some player)
    then have pl: "player \<in> set players" by (rule find_in)
    have rng: "0 \<le> pins r \<and> pins r \<le> 10"
      if "at_index (frames player) i = Some fr" and "find P (rolls fr) = Some r" for i fr P r
      using that pl assms by (meson at_index_in find_in pinsInRange_def)
    show ?thesis
      using \<open>sel = Some cell\<close> Some
      by (auto simp: getMaxPinsForSelection_def Let_def split: option.splits dest: rng)
  qed
qed

subsection \<open>Turn sequencer\<close>

lemma selectCell_less:
  "i < length players \<Longrightarrow>
   selectCell players i f r = Some \<lparr>sel_playerId = p_id (players ! i), sel_frameIndex = f, sel_rollNumber = r\<rparr>"
  by (simp add: selectCell_def at_index_def)

lemma selectCell_withinGame: "f \<le> 9 \<Longrightarrow> r \<le> 2 \<Longrightarrow> withinGame (selectCell players i f r)"
  by (simp add: selectCell_def withinGame_def split: option.splits)

lemma advanceTurn_withinGame:
  assumes "withinGame sel" and "f \<le> 9" and "r \<le> 2"
  shows "withinGame (advanceTurn players sel pid f r p)"
proof (cases "findIndex (\<lambda>q. p_id q = pid) players")
  case None
  with assms show ?thesis by (simp add: advanceTurn_def)
next
  case (Some i)
  show ?thesis
  proof (cases "f < 9")
    case True
    with Some assms show ?thesis
      by (auto simp: advanceTurn_def Let_def intro!: selectCell_withinGame)
  next
    case False
    with assms have "f = 9" by simp
    with Some assms show ?thesis
      by (auto simp: advanceTurn_def Let_def withinGame_def intro!: selectCell_withinGame[unfolded withinGame_def])
  qed
qed

lemma handleRollInput_withinGame:
  "withinGame sel \<Longrightarrow> withinGame (handleRollInput players sel p)"
  by (cases sel) (auto simp: handleRollInput_def intro!: advanceTurn_withinGame, auto simp: withinGame_def)

lemma autoSelect_Some [simp]: "autoSelect players (Some cell) = Some cell"
  by (simp add: autoSelect_def)

lemma nextOpenRoll_le: "nextOpenRoll f rs = Some r \<Longrightarrow> r \<le> 2"
  by (auto simp: nextOpenRoll_def split: if_splits)

lemma scanFrames_withinGame: "\<forall>f \<in> set fs. f \<le> 9 \<Longrightarrow> withinGame (scanFrames player fs)"
proof (induction fs)
  case Nil
  then show ?case by (simp add: withinGame_def)
next
  case (Cons f fs)
  show ?case
  proof (cases "nextOpenRoll f (frameRolls player f)")
    case None
    with Cons show ?thesis by simp
  next
    case (Some r)
    then have "r \<le> 2" by (rule nextOpenRoll_le)
    with Some Cons.prems show ?thesis by (simp add: withinGame_def)
  qed
qed

lemma scanPlayers_withinGame: "withinGame (scanPlayers players)"
proof (induction players)
  case Nil
  then show ?case by (simp add: withinGame_def)
next
  case (Cons player ps)
  have w: "withinGame (scanFrames player [0..<10])"
    by (rule scanFrames_withinGame) simp
  show ?case
  proof (cases "scanFrames player [0..<10]")
    case None
    with Cons show ?thesis by simp
  next
    case (Some cell)
    with w show ?thesis by simp
  qed
qed

lemma autoSelect_withinGame: "withinGame sel \<Longrightarrow> withinGame (autoSelect players sel)"
  by (simp add: autoSelect_def scanPlayers_withinGame)




lemma afterRollInput_withinGame:
  "withinGame sel \<Longrightarrow> withinGame (afterRollInput players sel p)"
  by (simp add: afterRollInput_def autoSelect_withinGame handleRollInput_withinGame)

text \<open>
  Along every sequence of committed rolls, the effect included, a selection with frame index
  at most 9 and roll index at most 2 stays so.
\<close>

lemma commitRolls_withinGame:
  "withinGame sel \<Longrightarrow> withinGame (commitRolls players sel ps)"
  unfolding commitRolls_def
  by (induction ps arbitrary: sel) (simp_all add: afterRollInput_withinGame)

text \<open>
  What \<^const>\<open>advanceTurn\<close> hands to the selection when a turn ends in the 10th frame, for
  a committing player found at \<open>pIndex\<close>: the next player's first roll, and none for the
  last player.
\<close>

lemma advanceTurn_tenth_frame_roll2:
  assumes f: "findIndex (\<lambda>p. p_id p = playerId) players = Some pIndex"
  shows "advanceTurn players sel playerId 9 2 pinsIn =
        (if pIndex = length players - 1 then None
         else Some \<lparr>sel_playerId = p_id (players ! (pIndex + 1)),
                    sel_frameIndex = 9, sel_rollNumber = 0\<rparr>)"
proof -
  from f have lt: "pIndex < length players" by (rule findIndex_Some_less)
  show ?thesis
  proof (cases "pIndex = length players - 1")
    case True
    from lt True have "(pIndex + 1) mod length players = 0" by (rule wrap_last)
    with f True show ?thesis by (simp add: advanceTurn_def)
  next
    case False
    with lt have "pIndex + 1 < length players" by simp
    with f False show ?thesis
      by (simp add: advanceTurn_def selectCell_less)
  qed
qed

lemma commitRolls_snoc:
  "commitRolls players sel (ps @ [p]) = afterRollInput players (commitRolls players sel ps) p"
  by (simp add: commitRolls_def)

lemma cycle_prefix:
  assumes d: "distinct (map p_id players)" and f: "f < 9"
    and ns: "\<forall>i < length players. ps ! (2 * i) \<noteq> 10"
    and len: "length ps = 2 * length players"
  shows "j < 2 * length players \<Longrightarrow>
     commitRolls players
       (Some \<lparr>sel_playerId = p_id (players ! 0), sel_frameIndex = f, sel_rollNumber = 0\<rparr>) (take j ps)
     = Some \<lparr>sel_playerId = p_id (players ! (j div 2)), sel_frameIndex = f,
             sel_rollNumber = int (j mod 2)\<rparr>"
proof (induction j)
  case 0
  then show ?case by (simp add: commitRolls_def)
next
  case (Suc j)
  let ?k = "j div 2"
  from Suc.prems have j: "j < 2 * length players" and k: "?k < length players" by auto
  from j len have tk: "take (Suc j) ps = take j ps @ [ps ! j]"
    by (simp add: take_Suc_conv_app_nth)
  have fi: "findIndex (\<lambda>p. p_id p = p_id (players ! ?k)) players = Some ?k"
    using d k by (rule findIndex_nth_distinct)
  show ?case
  proof (cases "j mod 2 = 0")
    case True
    then have "j = 2 * ?k" by presburger
    with ns k have "ps ! j \<noteq> 10" by metis
    moreover from True have "Suc j div 2 = ?k" "Suc j mod 2 = 1" by presburger+
    ultimately show ?thesis
      using Suc.IH[OF j] True fi f k
      by (simp add: tk commitRolls_snoc afterRollInput_def handleRollInput_def advanceTurn_def selectCell_less)
  next
    case False
    then have odd: "j mod 2 = 1" by presburger
    then have sk: "Suc j div 2 = Suc ?k" "Suc j mod 2 = 0" by presburger+
    with Suc.prems have k1: "Suc ?k < length players" by simp
    then have "(?k + 1) mod length players = ?k + 1" "?k \<noteq> length players - 1" by auto
    then show ?thesis
      using Suc.IH[OF j] odd fi f k1 sk
      by (simp add: tk commitRolls_snoc afterRollInput_def handleRollInput_def advanceTurn_def selectCell_less)
  qed
qed

lemma selectCell_ids:
  "map p_id ps1 = map p_id ps2 \<Longrightarrow> selectCell ps1 i f r = selectCell ps2 i f r"
proof -
  assume e: "map p_id ps1 = map p_id ps2"
  then have l: "length ps1 = length ps2" by (rule map_eq_imp_length_eq)
  show ?thesis
  proof (cases "i < length ps1")
    case True
    with e l have "p_id (ps1 ! i) = p_id (ps2 ! i)" by (metis nth_map)
    with True l show ?thesis by (simp add: selectCell_less)
  next
    case False
    with l show ?thesis by (simp add: selectCell_def at_index_def)
  qed
qed

section \<open>Frame builder: claims\<close>

text \<open>
  Claim C1. Whenever a frame \<open>f\<close> among the first nine holds a first roll of 10, the frame
  builder gives it the total 10 plus the sum of the next two recorded rolls met by scanning
  forward through the following frames; a roll not recorded yet counts 0 (the scan then
  meets fewer than two). For the rolls frame 1 = [10], frame 2 = [7, 2] of the store the
  frame totals are 19 and 9 and the running totals 19 and 28.
\<close>

theorem strike_frame_total:
  "(f < 9 \<and> rolls (frames (buildPlayer player rs) ! f) \<noteq> []
      \<and> pins (rolls (frames (buildPlayer player rs) ! f) ! 0) = 10
    \<longrightarrow> frameTotal (frames (buildPlayer player rs) ! f) =
          10 + sum_list (take 2 (rollsAfter (frames (buildPlayer player rs)) f)))
   \<and> map frameTotal (frames (buildPlayer alice strikeThenOpen)) = [19, 9, 0, 0, 0, 0, 0, 0, 0, 0]
   \<and> map runningTotal (frames (buildPlayer alice strikeThenOpen))
       = [19, 28, 28, 28, 28, 28, 28, 28, 28, 28]"
proof (intro conjI impI)
  assume "f < 9 \<and> rolls (frames (buildPlayer player rs) ! f) \<noteq> []
      \<and> pins (rolls (frames (buildPlayer player rs) ! f) ! 0) = 10"
  then show "frameTotal (frames (buildPlayer player rs) ! f) =
          10 + sum_list (take 2 (rollsAfter (frames (buildPlayer player rs)) f))"
    by (simp add: strike_total)
next
  show "map frameTotal (frames (buildPlayer alice strikeThenOpen)) = [19, 9, 0, 0, 0, 0, 0, 0, 0, 0]"
    by code_simp
next
  show "map runningTotal (frames (buildPlayer alice strikeThenOpen))
       = [19, 28, 28, 28, 28, 28, 28, 28, 28, 28]"
    by code_simp
qed

theorem strike_frame_total_witness:
  "rolls (frames (buildPlayer alice strikeThenOpen) ! 0) = [\<lparr>rollNumber = 0, pins = 10\<rparr>]
   \<and> rollsAfter (frames (buildPlayer alice strikeThenOpen)) 0 = [7, 2]
   \<and> frameTotal (frames (buildPlayer alice strikeThenOpen) ! 0) = 19"
proof -
  have r: "rolls (frames (buildPlayer alice strikeThenOpen) ! 0) = [\<lparr>rollNumber = 0, pins = 10\<rparr>]"
    by code_simp
  have a: "rollsAfter (frames (buildPlayer alice strikeThenOpen)) 0 = [7, 2]"
    by code_simp
  from strike_frame_total[of 0 alice strikeThenOpen] r a show ?thesis
    by simp
qed

text \<open>
  Claim C2, as the code has it. The total of the 10th frame is computed from that frame's
  own rolls alone: the first three in roll-number order (an absent one counting 0) when the
  first is 10 or the first two add up to 10, the first two otherwise. It is the sum of all
  the rolls recorded in the frame whenever the frame holds at most two rolls, or at most
  three after a strike or a spare. The rolls [10, 10, 10] give 30 and [4, 3] give 7.
\<close>

theorem tenth_frame_total:
  "frameTotal (frames (buildPlayer player rs) ! 9) =
     (let r = rolls (frames (buildPlayer player rs) ! 9);
          roll1 = pinsAt r 0; roll2 = pinsAt r 1; roll3 = pinsAt r 2
      in if roll1 = 10 \<or> roll1 + roll2 = 10 then roll1 + roll2 + roll3 else roll1 + roll2)
   \<and> (let r = rolls (frames (buildPlayer player rs) ! 9) in
        length r \<le> 2 \<or> (length r \<le> 3 \<and> (pinsAt r 0 = 10 \<or> pinsAt r 0 + pinsAt r 1 = 10))
        \<longrightarrow> frameTotal (frames (buildPlayer player rs) ! 9) = sum_list (map pins r))
   \<and> frameTotal (frames (buildPlayer alice tenthTriple) ! 9) = 30
   \<and> frameTotal (frames (buildPlayer alice tenthOpen) ! 9) = 7"
proof (intro conjI)
  show "frameTotal (frames (buildPlayer player rs) ! 9) =
     (let r = rolls (frames (buildPlayer player rs) ! 9);
          roll1 = pinsAt r 0; roll2 = pinsAt r 1; roll3 = pinsAt r 2
      in if roll1 = 10 \<or> roll1 + roll2 = 10 then roll1 + roll2 + roll3 else roll1 + roll2)"
    by (rule tenth_total)
next
  let ?r = "rolls (frames (buildPlayer player rs) ! 9)"
  have "frameTotal (frames (buildPlayer player rs) ! 9) = sum_list (map pins ?r)"
    if h: "length ?r \<le> 2 \<or> (length ?r \<le> 3 \<and> (pinsAt ?r 0 = 10 \<or> pinsAt ?r 0 + pinsAt ?r 1 = 10))"
  proof -
    from h have l: "length ?r \<le> 3" by auto
    from h have "pinsAt ?r 2 = 0 \<or> pinsAt ?r 0 = 10 \<or> pinsAt ?r 0 + pinsAt ?r 1 = 10"
      by (auto simp: pinsAt_def)
    then show ?thesis
      unfolding sum_pinsAt[OF l] tenth_total by (auto simp: Let_def)
  qed
  then show "let r = rolls (frames (buildPlayer player rs) ! 9) in
        length r \<le> 2 \<or> (length r \<le> 3 \<and> (pinsAt r 0 = 10 \<or> pinsAt r 0 + pinsAt r 1 = 10))
        \<longrightarrow> frameTotal (frames (buildPlayer player rs) ! 9) = sum_list (map pins r)"
    by (simp add: Let_def)
next
  show "frameTotal (frames (buildPlayer alice tenthTriple) ! 9) = 30" by code_simp
next
  show "frameTotal (frames (buildPlayer alice tenthOpen) ! 9) = 7" by code_simp
qed

theorem tenth_frame_total_witness:
  "map pins (rolls (frames (buildPlayer alice tenthTriple) ! 9)) = [10, 10, 10]
   \<and> frameTotal (frames (buildPlayer alice tenthTriple) ! 9)
       = sum_list (map pins (rolls (frames (buildPlayer alice tenthTriple) ! 9)))"
proof -
  have r: "rolls (frames (buildPlayer alice tenthTriple) ! 9)
             = [\<lparr>rollNumber = 0, pins = 10\<rparr>, \<lparr>rollNumber = 1, pins = 10\<rparr>,
                \<lparr>rollNumber = 2, pins = 10\<rparr>]"
    by code_simp
  from tenth_frame_total[of alice tenthTriple] r show ?thesis
    by (simp add: Let_def pinsAt_def)
qed

text \<open>
  Claim C2 as stated fails: a third roll recorded in an open 10th frame (the scorecard lets
  the cell be selected and filled) is left out of the total. The rolls [4, 3, 5] sum to 12
  and the frame total is 7.
\<close>

theorem tenth_frame_open_ignores_third_roll:
  "map pins (rolls (frames (buildPlayer alice tenthOpenExtra) ! 9)) = [4, 3, 5]
   \<and> sum_list (map pins (rolls (frames (buildPlayer alice tenthOpenExtra) ! 9))) = 12
   \<and> frameTotal (frames (buildPlayer alice tenthOpenExtra) ! 9) = 7"
  by code_simp

text \<open>
  Claim C10. For every player and every list of roll records the frame builder returns
  exactly ten frames, numbered 0 to 9 in order, and its whole result (frames, frame totals,
  running totals and the player's total) is the one it returns on the list without the
  records whose frame number is outside 1 to 10. The builder is a total function: no access
  of the source can fail, an index outside the array reading as undefined.
\<close>

theorem frame_builder_total_over_malformed_rolls:
  "length (frames (buildPlayer player rs)) = 10
   \<and> map frameNumber (frames (buildPlayer player rs)) = [0, 1, 2, 3, 4, 5, 6, 7, 8, 9]
   \<and> buildPlayer player rs = buildPlayer player (filter validFrame rs)
   \<and> processRollsIntoPlayers players rs = processRollsIntoPlayers players (filter validFrame rs)"
proof -
  have l: "length (frames (buildPlayer player rs)) = 10"
    by (simp add: frames_buildPlayer)
  have "map int [0..<10] = [0, 1, 2, 3, 4, 5, 6, 7, 8, 9]" by code_simp
  then have n: "map frameNumber (frames (buildPlayer player rs)) = [0, 1, 2, 3, 4, 5, 6, 7, 8, 9]"
    by (simp add: frames_buildPlayer frameNumber_calcTotals frameNumber_groupRolls)
  have g: "groupRolls (filter (\<lambda>r. player_id r = p_id q) (filter validFrame rs))
             = groupRolls (filter (\<lambda>r. player_id r = p_id q) rs)" for q
  proof -
    have "filter (\<lambda>r. player_id r = p_id q) (filter validFrame rs)
            = filter validFrame (filter (\<lambda>r. player_id r = p_id q) rs)"
      by (simp add: conj_commute)
    then show ?thesis by (simp only: groupRolls_filter)
  qed
  have b: "buildPlayer q rs = buildPlayer q (filter validFrame rs)" for q
    by (simp only: buildPlayer_def Let_def g)
  from l n b show ?thesis by (simp add: processRollsIntoPlayers_def)
qed

theorem frame_builder_total_over_malformed_rolls_witness:
  "filter validFrame withStrayRolls = [rollOf ''r1'' alice 1 1 3]
   \<and> buildPlayer alice withStrayRolls = buildPlayer alice [rollOf ''r1'' alice 1 1 3]
   \<and> map frameTotal (frames (buildPlayer alice withStrayRolls)) = [3, 0, 0, 0, 0, 0, 0, 0, 0, 0]
   \<and> total (buildPlayer alice withStrayRolls) = 3"
proof -
  have f: "filter validFrame withStrayRolls = [rollOf ''r1'' alice 1 1 3]"
    by (simp add: withStrayRolls_def validFrame_def rollOf_def)
  have t: "map frameTotal (frames (buildPlayer alice [rollOf ''r1'' alice 1 1 3]))
             = [3, 0, 0, 0, 0, 0, 0, 0, 0, 0]"
    by code_simp
  have s: "total (buildPlayer alice [rollOf ''r1'' alice 1 1 3]) = 3"
    by code_simp
  from frame_builder_total_over_malformed_rolls[of alice withStrayRolls "[]"] f t s
  show ?thesis by simp
qed

section \<open>Roll reconciliation: claims\<close>

text \<open>
  Claim C3 does not hold of the code: the insert branch appends the delivered row without
  looking for its id, while the update branch beside it looks the id up first. Delivering
  the insert of a roll of 3 pins a second time leaves two copies in the local roll set and
  turns the player's total from 3 into 6.
\<close>

theorem duplicate_insert_changes_scoreboard:
  "fst (onRollEvent [alice] [rollOf ''r1'' alice 1 1 3] (INSERT (rollOf ''r1'' alice 1 1 3)))
     = [rollOf ''r1'' alice 1 1 3, rollOf ''r1'' alice 1 1 3]
   \<and> map total (processRollsIntoPlayers [alice] [rollOf ''r1'' alice 1 1 3]) = [3]
   \<and> map total (snd (onRollEvent [alice] [rollOf ''r1'' alice 1 1 3]
                        (INSERT (rollOf ''r1'' alice 1 1 3)))) = [6]"
  by code_simp

theorem duplicate_insert_changes_scoreboard_witness:
  "length (fst (onRollEvent [alice] [rollOf ''r1'' alice 1 1 3]
                  (INSERT (rollOf ''r1'' alice 1 1 3)))) = 2"
  using duplicate_insert_changes_scoreboard by simp

section \<open>Legal-pins calculator: claims\<close>

text \<open>
  Claim C4. In a frame among the first nine whose recorded first roll knocked down fewer
  than 10 pins, the ceiling for roll index 1 added to the first roll is at most 10, every
  second roll within the ceiling keeps the frame at 10 pins or fewer, and the frame reaches
  10 exactly when the second roll is the ceiling. For every selection, none included, and
  every player list whose rolls are each between 0 and 10, the ceiling is between 0 and 10.
\<close>

theorem legal_pins_sound_and_total:
  "(find (\<lambda>p. p_id p = sel_playerId cell) players = Some player
      \<and> sel_frameIndex cell < 9 \<and> sel_rollNumber cell = 1
      \<and> at_index (frames player) (sel_frameIndex cell) = Some fr
      \<and> find (\<lambda>r. rollNumber r = 0) (rolls fr) = Some roll0
      \<and> pins roll0 < 10
    \<longrightarrow> (let maxPins = getMaxPinsForSelection players (Some cell) in
           maxPins + pins roll0 \<le> 10
         \<and> (\<forall>p. p \<le> maxPins \<longrightarrow>
                p + pins roll0 \<le> 10 \<and> ((p + pins roll0 = 10) = (p = maxPins)))))
   \<and> (pinsInRange players
    \<longrightarrow> 0 \<le> getMaxPinsForSelection players sel \<and> getMaxPinsForSelection players sel \<le> 10)"
proof (intro conjI impI)
  assume h: "find (\<lambda>p. p_id p = sel_playerId cell) players = Some player
      \<and> sel_frameIndex cell < 9 \<and> sel_rollNumber cell = 1
      \<and> at_index (frames player) (sel_frameIndex cell) = Some fr
      \<and> find (\<lambda>r. rollNumber r = 0) (rolls fr) = Some roll0
      \<and> pins roll0 < 10"
  then have "rolls fr \<noteq> []" by auto
  with h have "getMaxPinsForSelection players (Some cell) = 10 - pins roll0"
    by (simp add: getMaxPinsForSelection_def)
  then show "let maxPins = getMaxPinsForSelection players (Some cell) in
           maxPins + pins roll0 \<le> 10
         \<and> (\<forall>p. p \<le> maxPins \<longrightarrow>
                p + pins roll0 \<le> 10 \<and> ((p + pins roll0 = 10) = (p = maxPins)))"
    by (auto simp: Let_def)
next
  assume "pinsInRange players"
  then show "0 \<le> getMaxPinsForSelection players sel" by (simp add: range_aux)
next
  assume "pinsInRange players"
  then show "getMaxPinsForSelection players sel \<le> 10" by (simp add: range_aux)
qed

theorem legal_pins_sound_and_total_witness:
  "pinsInRange boardAfterSeven
   \<and> getMaxPinsForSelection boardAfterSeven
         (Some \<lparr>sel_playerId = ''p1'', sel_frameIndex = 0, sel_rollNumber = 1\<rparr>) + 7 \<le> 10
   \<and> 0 \<le> getMaxPinsForSelection boardAfterSeven
             (Some \<lparr>sel_playerId = ''p1'', sel_frameIndex = 0, sel_rollNumber = 1\<rparr>)"
proof -
  let ?cell = "\<lparr>sel_playerId = ''p1'', sel_frameIndex = 0, sel_rollNumber = 1\<rparr>"
  let ?fr = "\<lparr>frameNumber = 0, rolls = [\<lparr>rollNumber = 0, pins = 7\<rparr>],
              frameTotal = 7, runningTotal = 7\<rparr>"
  let ?rest = "map (\<lambda>i. \<lparr>frameNumber = i, rolls = [], frameTotal = 0, runningTotal = 7\<rparr>)
                 [1, 2, 3, 4, 5, 6, 7, 8, 9]"
  let ?player = "Player.extend alice (PlayerWithFrames.fields (?fr # ?rest) 7)"
  have b: "boardAfterSeven = [?player]"
    by code_simp
  have fs: "frames ?player = ?fr # ?rest"
    by (simp add: Player.defs PlayerWithFrames.defs)
  have h: "find (\<lambda>p. p_id p = sel_playerId ?cell) boardAfterSeven = Some ?player
      \<and> sel_frameIndex ?cell < 9 \<and> sel_rollNumber ?cell = 1
      \<and> at_index (frames ?player) (sel_frameIndex ?cell) = Some ?fr
      \<and> find (\<lambda>r. rollNumber r = 0) (rolls ?fr) = Some \<lparr>rollNumber = 0, pins = 7\<rparr>
      \<and> pins \<lparr>rollNumber = 0, pins = 7\<rparr> < 10"
    unfolding b fs by (simp add: at_index_def alice_def Player.defs PlayerWithFrames.defs)
  have r: "pinsInRange boardAfterSeven"
    unfolding b pinsInRange_def by (simp add: Player.defs PlayerWithFrames.defs)
  from legal_pins_sound_and_total
         [of ?cell boardAfterSeven ?player ?fr "\<lparr>rollNumber = 0, pins = 7\<rparr>" "Some ?cell"] h r
  show ?thesis by (simp add: Let_def)
qed

text \<open>
  Claim C5. For the 10th frame at roll index 2, with a first roll \<open>roll0\<close> and a second
  roll \<open>roll1\<close> recorded, the ceiling is 10 if \<open>roll1\<close> is 10; 10 if \<open>roll0\<close> is not 10
  and the two add up to 10; \<open>10 - roll1\<close> if \<open>roll0\<close> is 10 and \<open>roll1\<close> is below 10;
  and 10 in every other case. This holds for all values of the two rolls, those between 0
  and 10 among them.
\<close>

theorem tenth_frame_third_roll_ceiling:
  assumes "find (\<lambda>p. p_id p = sel_playerId cell) players = Some player"
    and "sel_frameIndex cell = 9" and "sel_rollNumber cell = 2"
    and "at_index (frames player) 9 = Some fr"
    and "find (\<lambda>r. rollNumber r = 0) (rolls fr) = Some roll0"
    and "find (\<lambda>r. rollNumber r = 1) (rolls fr) = Some roll1"
  shows "getMaxPinsForSelection players (Some cell) =
     (if pins roll1 = 10 then 10
      else if pins roll0 \<noteq> 10 \<and> pins roll0 + pins roll1 = 10 then 10
      else if pins roll0 = 10 \<and> pins roll1 < 10 then 10 - pins roll1
      else 10)"
  using assms by (simp add: getMaxPinsForSelection_def)

theorem tenth_frame_third_roll_ceiling_witness:
  "getMaxPinsForSelection boardTenthStrikeFive
     (Some \<lparr>sel_playerId = ''p1'', sel_frameIndex = 9, sel_rollNumber = 2\<rparr>) = 5"
proof -
  let ?cell = "\<lparr>sel_playerId = ''p1'', sel_frameIndex = 9, sel_rollNumber = 2\<rparr>"
  let ?r0 = "\<lparr>rollNumber = 0, pins = 10\<rparr>"
  let ?r1 = "\<lparr>rollNumber = 1, pins = 5\<rparr>"
  let ?fr = "\<lparr>frameNumber = 9, rolls = [?r0, ?r1], frameTotal = 15, runningTotal = 15\<rparr>"
  let ?init = "map (\<lambda>i. \<lparr>frameNumber = i, rolls = [], frameTotal = 0, runningTotal = 0\<rparr>)
                 [0, 1, 2, 3, 4, 5, 6, 7, 8]"
  let ?player = "Player.extend alice (PlayerWithFrames.fields (?init @ [?fr]) 15)"
  have b: "boardTenthStrikeFive = [?player]"
    by code_simp
  have fs: "frames ?player = ?init @ [?fr]"
    by (simp add: Player.defs PlayerWithFrames.defs)
  have h1: "find (\<lambda>p. p_id p = sel_playerId ?cell) boardTenthStrikeFive = Some ?player"
    unfolding b by (simp add: alice_def Player.defs PlayerWithFrames.defs)
  have h2: "at_index (frames ?player) 9 = Some ?fr"
    unfolding fs by (simp add: at_index_def)
  have h3: "find (\<lambda>r. rollNumber r = 0) (rolls ?fr) = Some ?r0"
    and h4: "find (\<lambda>r. rollNumber r = 1) (rolls ?fr) = Some ?r1"
    by simp_all
  from tenth_frame_third_roll_ceiling[OF h1 _ _ h2 h3 h4] show ?thesis by simp
qed

section \<open>Turn sequencer: claims\<close>

text \<open>
  Claim C6 does not hold of the code. When the last player's turn in the 10th frame ends,
  \<^const>\<open>advanceTurn\<close> sets the selection to none, and the effect then runs on a player
  list that does not hold the committed roll yet; it finds that player's 10th frame open
  and selects the cell just filled. After the last ball of a game of strikes the page rests
  at frame 9, roll index 2 of the player, not at no selection.
\<close>

theorem last_ball_reselects_the_filled_cell:
  "advanceTurn boardBeforeLastBall
       (Some \<lparr>sel_playerId = ''p1'', sel_frameIndex = 9, sel_rollNumber = 2\<rparr>) ''p1'' 9 2 10
     = None
   \<and> afterRollInput boardBeforeLastBall
       (Some \<lparr>sel_playerId = ''p1'', sel_frameIndex = 9, sel_rollNumber = 2\<rparr>) 10
     = Some \<lparr>sel_playerId = ''p1'', sel_frameIndex = 9, sel_rollNumber = 2\<rparr>
   \<and> autoSelect boardFullGame None = None"
  by code_simp

theorem last_ball_reselects_the_filled_cell_witness:
  "afterRollInput boardBeforeLastBall
       (Some \<lparr>sel_playerId = ''p1'', sel_frameIndex = 9, sel_rollNumber = 2\<rparr>) 10 \<noteq> None"
  using last_ball_reselects_the_filled_cell by simp

text \<open>
  Claim C7. With \<open>N \<ge> 1\<close> players (their ids distinct, as the store's keys are), a frame
  \<open>f\<close> among the first nine and \<open>2N\<close> committed rolls of which no first ball is a
  strike, starting at (player 0, \<open>f\<close>, roll 0): after \<open>j < 2N\<close> rolls the selection is
  player \<open>j div 2\<close>, frame \<open>f\<close>, roll \<open>j mod 2\<close>, so every turn ends after its second
  ball, the player index steps by one with the roll index back at 0 and the frame index
  stays; and the \<open>2N\<close> rolls together lead to (player 0, \<open>f + 1\<close>, roll 0), which no
  shorter run reaches. The run is that of the page, the effect after every committed roll
  included.
\<close>

theorem turn_cycling:
  assumes "players \<noteq> []" and "distinct (map p_id players)" and "f < 9"
    and "length ps = 2 * length players"
    and "\<forall>i < length players. ps ! (2 * i) \<noteq> 10"
  shows "(\<forall>j < 2 * length players.
           commitRolls players
             (Some \<lparr>sel_playerId = p_id (players ! 0), sel_frameIndex = f, sel_rollNumber = 0\<rparr>)
             (take j ps)
           = Some \<lparr>sel_playerId = p_id (players ! (j div 2)), sel_frameIndex = f,
                   sel_rollNumber = int (j mod 2)\<rparr>)
       \<and> commitRolls players
             (Some \<lparr>sel_playerId = p_id (players ! 0), sel_frameIndex = f, sel_rollNumber = 0\<rparr>) ps
           = Some \<lparr>sel_playerId = p_id (players ! 0), sel_frameIndex = f + 1, sel_rollNumber = 0\<rparr>"
proof
  show "\<forall>j < 2 * length players.
           commitRolls players
             (Some \<lparr>sel_playerId = p_id (players ! 0), sel_frameIndex = f, sel_rollNumber = 0\<rparr>)
             (take j ps)
           = Some \<lparr>sel_playerId = p_id (players ! (j div 2)), sel_frameIndex = f,
                   sel_rollNumber = int (j mod 2)\<rparr>"
    using assms cycle_prefix by blast
next
  let ?n = "length players"
  let ?j = "2 * ?n - 1"
  from assms(1) have n: "0 < ?n" by simp
  then have j: "?j < 2 * ?n" and jd: "?j div 2 = ?n - 1" and jm: "?j mod 2 = 1" by presburger+
  from assms(4) n have ps: "ps = take ?j ps @ [ps ! ?j]"
    by (metis j take_Suc_conv_app_nth take_all Suc_diff_1 le_refl mult_pos_pos zero_less_numeral)
  have fi: "findIndex (\<lambda>p. p_id p = p_id (players ! (?n - 1))) players = Some (?n - 1)"
    using assms(2) n by (intro findIndex_nth_distinct) auto
  have pre: "commitRolls players
       (Some \<lparr>sel_playerId = p_id (players ! 0), sel_frameIndex = f, sel_rollNumber = 0\<rparr>) (take ?j ps)
     = Some \<lparr>sel_playerId = p_id (players ! (?n - 1)), sel_frameIndex = f, sel_rollNumber = 1\<rparr>"
    using cycle_prefix[OF assms(2,3,5,4) j] jd jm by simp
  have "commitRolls players
       (Some \<lparr>sel_playerId = p_id (players ! 0), sel_frameIndex = f, sel_rollNumber = 0\<rparr>)
       (take ?j ps @ [ps ! ?j])
     = Some \<lparr>sel_playerId = p_id (players ! 0), sel_frameIndex = f + 1, sel_rollNumber = 0\<rparr>"
    using pre fi n assms(3)
    by (simp add: commitRolls_snoc afterRollInput_def handleRollInput_def advanceTurn_def selectCell_less)
  with ps show "commitRolls players
             (Some \<lparr>sel_playerId = p_id (players ! 0), sel_frameIndex = f, sel_rollNumber = 0\<rparr>) ps
           = Some \<lparr>sel_playerId = p_id (players ! 0), sel_frameIndex = f + 1, sel_rollNumber = 0\<rparr>"
    by simp
qed

theorem turn_cycling_witness:
  "commitRolls boardTwoPlayers
     (Some \<lparr>sel_playerId = ''p1'', sel_frameIndex = 0, sel_rollNumber = 0\<rparr>) [3, 4, 5, 5]
   = Some \<lparr>sel_playerId = ''p1'', sel_frameIndex = 1, sel_rollNumber = 0\<rparr>"
proof -
  have n: "boardTwoPlayers \<noteq> []" and l: "length [3, 4, 5, 5 :: int] = 2 * length boardTwoPlayers"
    and d: "distinct (map p_id boardTwoPlayers)"
    and p: "p_id (boardTwoPlayers ! 0) = ''p1''"
    by code_simp+
  have "length boardTwoPlayers = 2" by code_simp
  then have s: "\<forall>i < length boardTwoPlayers. [3, 4, 5, 5 :: int] ! (2 * i) \<noteq> 10"
    by (simp add: less_Suc_eq numeral_2_eq_2)
  have f: "(0::int) < 9" by simp
  from turn_cycling[OF n d f l s] p show ?thesis by simp
qed

text \<open>
  Claim C8, as the code has it. For two states of the derived data over the same players
  (the same ids in the same order) and the same committed roll, the transition gives the
  same next selection whenever the roll is not the second ball of the 10th frame (frame
  index below 9, or roll index other than 1), or the two states agree on the first roll
  of the committing player's 10th frame.
\<close>

theorem advanceTurn_depends_on_input_and_tenth_frame_roll0:
  assumes ids: "map p_id ps1 = map p_id ps2"
    and agree: "frameIndex < 9 \<or> rollNo \<noteq> 1
       \<or> (\<forall>i. findIndex (\<lambda>p. p_id p = playerId) ps1 = Some i
              \<longrightarrow> tenthFrameRoll0 (ps1 ! i) = tenthFrameRoll0 (ps2 ! i))"
  shows "advanceTurn ps1 sel playerId frameIndex rollNo pinsIn
       = advanceTurn ps2 sel playerId frameIndex rollNo pinsIn"
proof -
  from ids have l: "length ps1 = length ps2" by (rule map_eq_imp_length_eq)
  have fi: "findIndex (\<lambda>p. p_id p = playerId) ps1 = findIndex (\<lambda>p. p_id p = playerId) ps2"
    using ids by (simp add: findIndex_map[of p_id])
  have sc: "selectCell ps1 i f r = selectCell ps2 i f r" for i f r
    using ids by (rule selectCell_ids)
  show ?thesis
  proof (cases "findIndex (\<lambda>p. p_id p = playerId) ps1")
    case None
    with fi show ?thesis by (simp add: advanceTurn_def)
  next
    case (Some i)
    with agree have a: "frameIndex < 9 \<or> rollNo \<noteq> 1
        \<or> tenthFrameRoll0 (ps1 ! i) = tenthFrameRoll0 (ps2 ! i)" by auto
    from Some fi have fi2: "findIndex (\<lambda>p. p_id p = playerId) ps2 = Some i" by simp
    from a show ?thesis
      unfolding advanceTurn_def Some fi2 l sc by (auto simp: Let_def)
  qed
qed

theorem advanceTurn_depends_on_input_and_tenth_frame_roll0_witness:
  "advanceTurn boardTenthStrike None ''p1'' 9 2 4 = advanceTurn boardEmpty None ''p1'' 9 2 4
   \<and> advanceTurn boardTenthStrike None ''p1'' 3 1 4 = advanceTurn boardEmpty None ''p1'' 3 1 4"
proof -
  have ids: "map p_id boardTenthStrike = map p_id boardEmpty" by code_simp
  from advanceTurn_depends_on_input_and_tenth_frame_roll0[OF ids, of 9 2 "''p1''" None 4]
       advanceTurn_depends_on_input_and_tenth_frame_roll0[OF ids, of 3 1 "''p1''" None 4]
  show ?thesis by simp
qed

text \<open>
  Claim C8 as stated fails: at the second ball of the 10th frame the transition reads the
  first roll back from the derived data. With the same player and the same committed roll
  (frame 9, roll index 1, 4 pins), the state that holds the opening strike selects the
  third roll, and the state in which that strike is not visible yet ends the game.
\<close>

theorem advanceTurn_reads_tenth_frame_roll0:
  "map p_id boardTenthStrike = map p_id boardEmpty
   \<and> advanceTurn boardTenthStrike None ''p1'' 9 1 4
       = Some \<lparr>sel_playerId = ''p1'', sel_frameIndex = 9, sel_rollNumber = 2\<rparr>
   \<and> advanceTurn boardEmpty None ''p1'' 9 1 4 = None"
  by code_simp

section \<open>Reset actions: claims\<close>




end
